theory Spec2Isabelle
  imports Complex_Main
begin

section \<open>Data model\<close>

text \<open>
  The simulation canvas works on a netlist of elements and named connections. JavaScript
  numbers are modelled as \<open>real\<close> (coordinates, progress, timestamps) and as \<open>int\<close>
  (element ids); an optional field (\<open>x?\<close>, \<open>inputs?\<close>) is an \<open>option\<close>. Field
  names that clash with HOL constants or with each other carry a prefix. \<open>IElement\<close>
  and \<open>IConnection\<close> are declared outside the component; the records hold the fields
  the component reads.
\<close>

record Point =
  ptx :: real
  pty :: real

record Port =
  wireName :: string

record IElement =
  el_id :: int
  el_name :: string
  el_type :: string
  el_x :: "real option"
  el_y :: "real option"
  inputs :: "Port list option"
  outputs :: "Port list option"

record IConnection =
  conn_name :: string

record Signal =
  connectionName :: string
  position :: real
  points :: "Point list"
  totalLength :: real
  createdAt :: real
  sourceName :: string
  destName :: string

record FlipFlopState =
  ff_id :: int
  ff_name :: string
  hasD :: bool
  hasEn :: bool
  outputValue :: bool
  lastClockTime :: real
  ff_type :: string

datatype PortType = Input | Output

section \<open>String and array helpers of the host language\<close>

fun startsWith :: "string \<Rightarrow> string \<Rightarrow> bool" where
  "startsWith s [] = True"
| "startsWith [] (c # p) = False"
| "startsWith (a # s) (c # p) = (a = c \<and> startsWith s p)"

text \<open>\<open>strIncludes s p\<close>: the pattern \<open>p\<close> occurs somewhere in \<open>s\<close>.\<close>

fun strIncludes :: "string \<Rightarrow> string \<Rightarrow> bool" where
  "strIncludes [] p = (p = [])"
| "strIncludes (a # s) p = (startsWith (a # s) p \<or> strIncludes s p)"

definition endsWith :: "string \<Rightarrow> string \<Rightarrow> bool" where
  "endsWith s p = startsWith (rev s) (rev p)"

text \<open>\<open>Array.prototype.findIndex\<close>, with \<open>None\<close> for the result \<open>-1\<close>.\<close>

fun findIndex :: "('a \<Rightarrow> bool) \<Rightarrow> 'a list \<Rightarrow> nat option" where
  "findIndex P [] = None"
| "findIndex P (a # as) =
     (if P a then Some 0 else map_option Suc (findIndex P as))"

text \<open>Decimal rendering of an element id inside a template string.\<close>

fun digits :: "nat \<Rightarrow> string" where
  "digits n =
     (if n < 10 then [char_of (48 + n)] else digits (n div 10) @ [char_of (48 + n mod 10)])"

definition numToString :: "int \<Rightarrow> string" where
  "numToString i = (if i < 0 then CHR ''-'' # digits (nat (- i)) else digits (nat i))"

text \<open>\<open>el.outputs && el.outputs.some(o => o.wireName === w)\<close> and its input twin.\<close>

definition drivesWire :: "string \<Rightarrow> IElement \<Rightarrow> bool" where
  "drivesWire w el =
     (case outputs el of None \<Rightarrow> False | Some ps \<Rightarrow> list_ex (\<lambda>p. wireName p = w) ps)"

definition readsWire :: "string \<Rightarrow> IElement \<Rightarrow> bool" where
  "readsWire w el =
     (case inputs el of None \<Rightarrow> False | Some ps \<Rightarrow> list_ex (\<lambda>p. wireName p = w) ps)"

text \<open>\<open>el.name || `element-${el.id}`\<close>: the empty name stands for a missing one.\<close>

definition elementLabel :: "IElement \<Rightarrow> string" where
  "elementLabel el = (if el_name el = [] then ''element-'' @ numToString (el_id el) else el_name el)"

definition isFlipFlop :: "IElement \<Rightarrow> bool" where
  "isFlipFlop el = (el_type el = ''DFF'' \<or> el_type el = ''DFF_NE'')"

section \<open>Wire path resolver\<close>

definition orZero :: "real option \<Rightarrow> real" where
  "orZero v = (case v of None \<Rightarrow> 0 | Some r \<Rightarrow> r)"

definition getPortPosition :: "IElement \<Rightarrow> PortType \<Rightarrow> string \<Rightarrow> Point" where
  "getPortPosition element portType portName =
     (let size = 50;
          x = orZero (el_x element);
          y = orZero (el_y element);
          portX = (if portType = Input then x else x + size);
          portY = y + size / 2
      in if isFlipFlop element then
           (if portType = Input then
              (if strIncludes portName ''D'' \<or> endsWith portName ''_0'' then
                 \<lparr>ptx = x, pty = y + size * 0.25\<rparr>
               else if strIncludes portName ''clk'' \<or> endsWith portName ''_1'' then
                 \<lparr>ptx = x + size / 2, pty = y + size\<rparr>
               else if strIncludes portName ''en'' \<or> endsWith portName ''_2'' then
                 \<lparr>ptx = x, pty = y + size * 0.75\<rparr>
               else \<lparr>ptx = portX, pty = portY\<rparr>)
            else \<lparr>ptx = x + size, pty = y + size / 2\<rparr>)
         else \<lparr>ptx = portX, pty = portY\<rparr>)"

text \<open>\<open>port?.wireName || connection.name\<close>\<close>

definition portNameOr :: "Port option \<Rightarrow> string \<Rightarrow> string" where
  "portNameOr port fallback =
     (case port of None \<Rightarrow> fallback
      | Some p \<Rightarrow> if wireName p = [] then fallback else wireName p)"

definition findPort :: "Port list option \<Rightarrow> string \<Rightarrow> Port option" where
  "findPort ports w =
     (case ports of None \<Rightarrow> None | Some ps \<Rightarrow> find (\<lambda>p. wireName p = w) ps)"

definition calculateOrthogonalPath :: "IElement \<Rightarrow> IElement \<Rightarrow> IConnection \<Rightarrow> Point list" where
  "calculateOrthogonalPath sourceElement destElement connection =
     (let sourcePort = findPort (outputs sourceElement) (conn_name connection);
          destPort = findPort (inputs destElement) (conn_name connection);
          sourcePos = getPortPosition sourceElement Output
                        (portNameOr sourcePort (conn_name connection));
          destPos = getPortPosition destElement Input
                        (portNameOr destPort (conn_name connection));
          startX = ptx sourcePos; startY = pty sourcePos;
          endX = ptx destPos; endY = pty destPos;
          midX = startX + (endX - startX) / 2
      in [\<lparr>ptx = startX, pty = startY\<rparr>, \<lparr>ptx = midX, pty = startY\<rparr>,
          \<lparr>ptx = midX, pty = endY\<rparr>, \<lparr>ptx = endX, pty = endY\<rparr>])"

text \<open>The loop that sums the Euclidean lengths of the segments of a path.\<close>

fun pathLength :: "Point list \<Rightarrow> real" where
  "pathLength (p # q # ps) =
     sqrt ((ptx q - ptx p) * (ptx q - ptx p) + (pty q - pty p) * (pty q - pty p))
       + pathLength (q # ps)"
| "pathLength ps = 0"

section \<open>Input toggle\<close>

text \<open>The updater that \<open>handleMouseUp\<close> passes to \<open>setActiveInputs\<close>.\<close>

definition toggleActiveInput :: "int \<Rightarrow> int list \<Rightarrow> int list" where
  "toggleActiveInput clicked prev =
     (if clicked \<in> set prev then filter (\<lambda>i. i \<noteq> clicked) prev else prev @ [clicked])"

text \<open>What \<open>handleMouseUp\<close> does to the active inputs.\<close>

definition handleMouseUp :: "IElement option \<Rightarrow> bool \<Rightarrow> int list \<Rightarrow> int list" where
  "handleMouseUp clickedElement elementWasDragged prev =
     (case clickedElement of
        None \<Rightarrow> prev
      | Some el \<Rightarrow>
          if \<not> elementWasDragged \<and> el_type el = ''module_input''
          then toggleActiveInput (el_id el) prev else prev)"

section \<open>Simulation state\<close>

record FlipFlopInputs =
  ffi_D :: bool
  ffi_En :: bool
  lastEnUpdateTime :: real

text \<open>
  The component state the simulation reads and writes. \<open>pendingTimeouts\<close> holds the
  callbacks handed to \<open>setTimeout\<close> that have not fired yet: the time they are due and
  the flip-flop element their closure captured. The netlist (\<open>elements\<close>,
  \<open>connections\<close>) is a parameter of every operation.
\<close>

record SimState =
  runningSimulation :: bool
  clockFrequency :: real
  activeSignals :: "Signal list"
  flipFlopStates :: "FlipFlopState list"
  activeInputs :: "int list"
  activeOutputs :: "int \<rightharpoonup> real"
  activeFlipFlopInputs :: "int \<rightharpoonup> FlipFlopInputs"
  pendingTimeouts :: "(real \<times> IElement) list"

definition signalSpeed :: "real \<Rightarrow> real" where
  "signalSpeed freq = 1 / freq"

definition newSignal :: "IElement \<Rightarrow> IElement \<Rightarrow> IConnection \<Rightarrow> real \<Rightarrow> Signal" where
  "newSignal source dest conn now =
     (let path = calculateOrthogonalPath source dest conn
      in \<lparr>connectionName = conn_name conn, position = 0, points = path,
          totalLength = pathLength path, createdAt = now,
          sourceName = elementLabel source, destName = elementLabel dest\<rparr>)"

section \<open>Flip-flop state machine and arrival dispatch\<close>

definition isClockInput :: "nat option \<Rightarrow> Port \<Rightarrow> bool" where
  "isClockInput portIndex inputPort = (portIndex = Some 1 \<or> strIncludes (wireName inputPort) ''clk'')"

definition isDInput :: "nat option \<Rightarrow> Port \<Rightarrow> bool" where
  "isDInput portIndex inputPort = (portIndex = Some 0 \<or> strIncludes (wireName inputPort) ''D'')"

definition isEnInput :: "nat option \<Rightarrow> Port \<Rightarrow> bool" where
  "isEnInput portIndex inputPort = (portIndex = Some 2 \<or> strIncludes (wireName inputPort) ''en'')"

definition shouldUpdateOutput :: "IElement \<Rightarrow> FlipFlopState \<Rightarrow> bool" where
  "shouldUpdateOutput destElement ff =
     (el_type destElement = ''DFF_NE'' \<or> (el_type destElement = ''DFF'' \<and> hasEn ff))"

text \<open>
  The updater given to \<open>setFlipFlopStates\<close>, together with the two effects it has on
  the way: the enable tracker update and the deferred output emission it schedules.
\<close>

definition flipFlopUpdater ::
  "IElement \<Rightarrow> bool \<Rightarrow> bool \<Rightarrow> bool \<Rightarrow> real \<Rightarrow> SimState \<Rightarrow> SimState" where
  "flipFlopUpdater destElement dIn enIn clkIn currentTime st =
     (let prev = flipFlopStates st in
      case findIndex (\<lambda>ff. ff_id ff = el_id destElement) prev of
        None \<Rightarrow> st
      | Some ffIndex \<Rightarrow>
          if dIn then
            st\<lparr>flipFlopStates := prev[ffIndex := (prev ! ffIndex)\<lparr>hasD := True\<rparr>]\<rparr>
          else if enIn then
            (if el_type destElement = ''DFF'' then
               st\<lparr>flipFlopStates := prev[ffIndex := (prev ! ffIndex)\<lparr>hasEn := True\<rparr>],
                  activeFlipFlopInputs := (activeFlipFlopInputs st)(el_id destElement \<mapsto>
                     (case activeFlipFlopInputs st (el_id destElement) of
                        None \<Rightarrow> \<lparr>ffi_D = False, ffi_En = False, lastEnUpdateTime = 0\<rparr>
                      | Some v \<Rightarrow> v)\<lparr>ffi_En := True, lastEnUpdateTime := currentTime\<rparr>)\<rparr>
             else st)
          else if clkIn then
            (let ff = prev ! ffIndex in
             if currentTime - lastClockTime ff < 50 then st
             else
               let ff1 = ff\<lparr>lastClockTime := currentTime\<rparr>;
                   ff2 = (if shouldUpdateOutput destElement ff
                          then ff1\<lparr>outputValue := hasD ff\<rparr> else ff1);
                   timeouts = (if shouldUpdateOutput destElement ff \<and> outputValue ff2
                               then pendingTimeouts st @ [(currentTime + 100, destElement)]
                               else pendingTimeouts st)
               in st\<lparr>flipFlopStates := prev[ffIndex := ff2\<lparr>hasD := False\<rparr>],
                     pendingTimeouts := timeouts\<rparr>)
          else st)"

definition handleSignalArrival :: "IElement list \<Rightarrow> real \<Rightarrow> Signal \<Rightarrow> SimState \<Rightarrow> SimState" where
  "handleSignalArrival elements now signal st =
     (case find (readsWire (connectionName signal)) elements of
        None \<Rightarrow> st
      | Some destElement \<Rightarrow>
          (case findPort (inputs destElement) (connectionName signal) of
             None \<Rightarrow> st
           | Some inputPort \<Rightarrow>
               let st1 = (if el_type destElement = ''module_output''
                          then st\<lparr>activeOutputs := (activeOutputs st)(el_id destElement \<mapsto> now)\<rparr>
                          else st)
               in if isFlipFlop destElement then
                    let portIndex = findIndex (\<lambda>p. wireName p = connectionName signal)
                                      (case inputs destElement of None \<Rightarrow> [] | Some ps \<Rightarrow> ps)
                    in flipFlopUpdater destElement (isDInput portIndex inputPort)
                         (isEnInput portIndex inputPort) (isClockInput portIndex inputPort) now st1
                  else st1))"

text \<open>
  The callback of \<open>setTimeout(..., 100)\<close>: it looks up the first connection driven by the
  flip-flop and appends a fresh signal on it.
\<close>

definition deferredEmission ::
  "IElement list \<Rightarrow> IConnection list \<Rightarrow> IElement \<Rightarrow> real \<Rightarrow> Signal list \<Rightarrow> Signal list" where
  "deferredEmission elements connections destElement now signals =
     (case find (\<lambda>conn. find (\<lambda>el. el_id el = el_id destElement \<and> drivesWire (conn_name conn) el)
                           elements \<noteq> None) connections of
        None \<Rightarrow> signals
      | Some outputConn \<Rightarrow>
          (case (find (\<lambda>el. el_id el = el_id destElement) elements,
                 find (readsWire (conn_name outputConn)) elements) of
             (Some outputElement, Some targetElement) \<Rightarrow>
               signals @ [newSignal outputElement targetElement outputConn now]
           | _ \<Rightarrow> signals))"

text \<open>The oldest pending timeout fires.\<close>

definition fireTimeout :: "IElement list \<Rightarrow> IConnection list \<Rightarrow> real \<Rightarrow> SimState \<Rightarrow> SimState" where
  "fireTimeout elements connections now st =
     (case pendingTimeouts st of
        [] \<Rightarrow> st
      | (due, destElement) # rest \<Rightarrow>
          st\<lparr>activeSignals := deferredEmission elements connections destElement now (activeSignals st),
             pendingTimeouts := rest\<rparr>)"

section \<open>Signal propagation scheduler\<close>

definition clockConnections :: "IElement list \<Rightarrow> IConnection list \<Rightarrow> IElement \<Rightarrow> IConnection list" where
  "clockConnections elements connections clockElement =
     filter (\<lambda>conn. case find (drivesWire (conn_name conn)) elements of
                       None \<Rightarrow> False
                     | Some sourceElement \<Rightarrow> el_id sourceElement = el_id clockElement) connections"

definition inputConnections :: "IElement list \<Rightarrow> IConnection list \<Rightarrow> int list \<Rightarrow> IConnection list" where
  "inputConnections elements connections actIn =
     filter (\<lambda>conn. case find (drivesWire (conn_name conn)) elements of
                       None \<Rightarrow> False
                     | Some sourceElement \<Rightarrow>
                         el_type sourceElement = ''module_input'' \<and> el_id sourceElement \<in> set actIn)
       connections"

text \<open>The body of \<open>allSignalSources.forEach\<close>, for one connection.\<close>

definition emitOn :: "IElement list \<Rightarrow> real \<Rightarrow> IConnection \<Rightarrow> Signal list \<Rightarrow> Signal list" where
  "emitOn elements now conn updatedSignals =
     (if list_ex (\<lambda>signal. connectionName signal = conn_name conn) updatedSignals
      then updatedSignals
      else (case (find (drivesWire (conn_name conn)) elements,
                  find (readsWire (conn_name conn)) elements) of
              (Some source, Some dest) \<Rightarrow> updatedSignals @ [newSignal source dest conn now]
            | _ \<Rightarrow> updatedSignals))"

text \<open>The updater of the emission tick (\<open>clockInterval\<close>).\<close>

definition emissionTick ::
  "IElement list \<Rightarrow> IConnection list \<Rightarrow> IElement \<Rightarrow> int list \<Rightarrow> real \<Rightarrow> Signal list \<Rightarrow> Signal list" where
  "emissionTick elements connections clockElement actIn now prevSignals =
     fold (emitOn elements now)
       (clockConnections elements connections clockElement
          @ inputConnections elements connections actIn) prevSignals"

text \<open>The advancement tick (\<open>signalInterval\<close>).\<close>

definition newPosition :: "real \<Rightarrow> Signal \<Rightarrow> real" where
  "newPosition freq signal = position signal + 0.01 / signalSpeed freq"

definition arrivingSignals :: "real \<Rightarrow> Signal list \<Rightarrow> Signal list" where
  "arrivingSignals freq prev =
     filter (\<lambda>signal. position signal < 1.0 \<and> newPosition freq signal \<ge> 1.0) prev"

definition remainingSignals :: "real \<Rightarrow> Signal list \<Rightarrow> Signal list" where
  "remainingSignals freq prev =
     filter (\<lambda>signal. position signal < 1.0)
       (map (\<lambda>signal. signal\<lparr>position := newPosition freq signal\<rparr>) prev)"

definition advanceTick :: "IElement list \<Rightarrow> real \<Rightarrow> SimState \<Rightarrow> SimState" where
  "advanceTick elements now st =
     (fold (handleSignalArrival elements now)
        (arrivingSignals (clockFrequency st) (activeSignals st)) st)
       \<lparr>activeSignals := remainingSignals (clockFrequency st) (activeSignals st)\<rparr>"

section \<open>Simulation driver\<close>

text \<open>
  The effect that owns the two intervals: when it runs with the simulation stopped it
  clears the active signals. It runs again whenever one of its dependencies changes,
  the active-input array among them.
\<close>

definition simulationEffect :: "SimState \<Rightarrow> SimState" where
  "simulationEffect st = (if \<not> runningSimulation st then st\<lparr>activeSignals := []\<rparr> else st)"

definition outputTimeoutEffect :: "SimState \<Rightarrow> SimState" where
  "outputTimeoutEffect st = (if \<not> runningSimulation st then st\<lparr>activeOutputs := Map.empty\<rparr> else st)"

definition setRunningSimulation :: "bool \<Rightarrow> SimState \<Rightarrow> SimState" where
  "setRunningSimulation playing st =
     outputTimeoutEffect (simulationEffect (st\<lparr>runningSimulation := playing\<rparr>))"

text \<open>The two effects on \<open>resetTriggered\<close>, and the effect their state change re-runs.\<close>

definition resetFlipFlop :: "FlipFlopState \<Rightarrow> FlipFlopState" where
  "resetFlipFlop ff =
     ff\<lparr>hasD := False, hasEn := (ff_type ff = ''DFF_NE''), outputValue := False, lastClockTime := 0\<rparr>"

definition resetTriggeredEffect :: "SimState \<Rightarrow> SimState" where
  "resetTriggeredEffect st =
     simulationEffect
       (st\<lparr>flipFlopStates := map resetFlipFlop (flipFlopStates st),
           activeInputs := [],
           activeOutputs := Map.empty\<rparr>)"

text \<open>The frequency control; the effect that owns the intervals runs again afterwards.\<close>

definition handleClockFrequencyChange :: "real \<Rightarrow> SimState \<Rightarrow> SimState" where
  "handleClockFrequencyChange newFrequency st =
     simulationEffect (st\<lparr>clockFrequency := max 1 (min 100 newFrequency)\<rparr>)"

text \<open>
  A signal reaches the clock branch of the flip-flop update: its destination is the
  flip-flop \<open>destElement\<close> and its port is taken neither for D nor for enable.
\<close>

definition clockArrival :: "IElement list \<Rightarrow> Signal \<Rightarrow> IElement \<Rightarrow> bool" where
  "clockArrival elements signal destElement =
     (find (readsWire (connectionName signal)) elements = Some destElement
      \<and> isFlipFlop destElement
      \<and> (case findPort (inputs destElement) (connectionName signal) of
           None \<Rightarrow> False
         | Some inputPort \<Rightarrow>
             let portIndex = findIndex (\<lambda>p. wireName p = connectionName signal)
                               (case inputs destElement of None \<Rightarrow> [] | Some ps \<Rightarrow> ps)
             in \<not> isDInput portIndex inputPort \<and> \<not> isEnInput portIndex inputPort
                \<and> isClockInput portIndex inputPort))"

section \<open>Layout planner\<close>

text \<open>
  Element objects live in a store and arrays hold references to them, so that what the
  planner writes into an element is visible through every array that holds it.
\<close>

type_synonym ref = nat
type_synonym store = "ref \<Rightarrow> IElement"

text \<open>
  Step 1: the dependency graph, from element id to the ids it drives. Every element id
  starts with the empty list, and only ids of elements are looked up. Steps 1 and 2 read
  the elements and write nothing, so they work on the list \<open>els\<close> of the objects that
  the array refers to.
\<close>

definition addConnection :: "IElement list \<Rightarrow> IConnection \<Rightarrow> (int \<Rightarrow> int list) \<Rightarrow> (int \<Rightarrow> int list)" where
  "addConnection els conn graph =
     (case (find (drivesWire (conn_name conn)) els, find (readsWire (conn_name conn)) els) of
        (Some sourceElement, Some destElement) \<Rightarrow>
          graph(el_id sourceElement := graph (el_id sourceElement) @ [el_id destElement])
      | _ \<Rightarrow> graph)"

definition dependencyGraph :: "IElement list \<Rightarrow> IConnection list \<Rightarrow> int \<Rightarrow> int list" where
  "dependencyGraph els connections = fold (addConnection els) connections (\<lambda>_. [])"

text \<open>Step 2: layers.\<close>

definition sourceLayers :: "IElement list \<Rightarrow> int list" where
  "sourceLayers els =
     map el_id (filter (\<lambda>el. el_type el = ''module_input'' \<or> el_type el = ''clk''
                              \<or> inputs el = None \<or> inputs el = Some []) els)"

text \<open>The ids of the elements that drive the inputs of \<open>el\<close>, unresolved inputs dropped.\<close>

definition inputElements :: "IElement list \<Rightarrow> Port list \<Rightarrow> int list" where
  "inputElements els ins =
     List.map_filter (\<lambda>input. map_option el_id (find (drivesWire (wireName input)) els)) ins"

text \<open>The body of the inner \<open>forEach\<close>, on the pair of \<open>nextLayer\<close> and \<open>visited\<close>.\<close>

definition visitDest :: "IElement list \<Rightarrow> int \<Rightarrow> int list \<times> int set \<Rightarrow> int list \<times> int set" where
  "visitDest els destId acc =
     (case acc of (nextLayer, visited) \<Rightarrow>
        if destId \<in> visited then acc
        else (case find (\<lambda>e. el_id e = destId) els of
                None \<Rightarrow> acc
              | Some el \<Rightarrow>
                  (case inputs el of
                     None \<Rightarrow> acc
                   | Some ins \<Rightarrow>
                       if list_all (\<lambda>i. i \<in> visited) (inputElements els ins)
                       then (nextLayer @ [destId], insert destId visited)
                       else acc)))"

definition expandLayer ::
  "IElement list \<Rightarrow> (int \<Rightarrow> int list) \<Rightarrow> int list \<Rightarrow> int set \<Rightarrow> int list \<times> int set" where
  "expandLayer els graph currentLayer visited =
     fold (\<lambda>srcId. fold (visitDest els) (graph srcId)) currentLayer ([], visited)"

text \<open>What one pass adds: fresh ids of elements, each once.\<close>

definition passInv :: "IElement list \<Rightarrow> int set \<Rightarrow> int list \<times> int set \<Rightarrow> bool" where
  "passInv els visited acc =
     (snd acc = visited \<union> set (fst acc) \<and> set (fst acc) \<subseteq> el_id ` set els - visited
      \<and> distinct (fst acc))"

function buildLayers ::
  "IElement list \<Rightarrow> (int \<Rightarrow> int list) \<Rightarrow> int list \<Rightarrow> int set \<Rightarrow> int list list
     \<Rightarrow> int list list \<times> int set" where
  "buildLayers els graph currentLayer visited layers =
     (if currentLayer = [] then (layers, visited)
      else (case expandLayer els graph currentLayer visited of
              (nextLayer, visited') \<Rightarrow>
                buildLayers els graph nextLayer visited'
                  (if nextLayer \<noteq> [] then layers @ [nextLayer] else layers)))"
  by pat_completeness auto

termination buildLayers
proof (relation "measures [\<lambda>(els, graph, cur, visited, layers). card (el_id ` set els - visited),
                          \<lambda>(els, graph, cur, visited, layers). if cur = [] then 0 else 1]")
  show "wf (measures [\<lambda>(els, graph, cur, visited, layers). card (el_id ` set els - visited),
                      \<lambda>(els, graph, cur :: int list, visited, layers :: int list list).
                         if cur = [] then 0 else 1])"
    by simp
next
  fix els graph visited nextLayer visited'
  fix currentLayer :: "int list" and layers :: "int list list"
  assume ne: "currentLayer \<noteq> []"
    and e: "(nextLayer, visited') = expandLayer els graph currentLayer visited"
  have fnd: "x \<in> set xs \<and> P x" if "find P xs = Some x" for P and x :: IElement and xs
    using that by (induction xs) (auto split: if_splits)
  have step: "passInv els visited (visitDest els d acc)" if "passInv els visited acc" for d acc
    using that
    by (cases acc) (auto simp: passInv_def visitDest_def split: option.splits dest!: fnd)
  have inner: "passInv els visited (fold (visitDest els) ds acc)"
    if "passInv els visited acc" for ds acc
    using that by (induction ds arbitrary: acc) (simp_all add: step)
  have outer: "passInv els visited (fold (\<lambda>srcId. fold (visitDest els) (graph srcId)) cs acc)"
    if "passInv els visited acc" for cs acc
    using that by (induction cs arbitrary: acc) (simp_all add: inner)
  have "passInv els visited (expandLayer els graph currentLayer visited)"
    unfolding expandLayer_def by (rule outer) (simp add: passInv_def)
  with e have v: "visited' = visited \<union> set nextLayer"
    and n: "set nextLayer \<subseteq> el_id ` set els - visited"
    by (simp_all add: passInv_def flip: e)
  show "((els, graph, nextLayer, visited', if nextLayer \<noteq> [] then layers @ [nextLayer] else layers),
         els, graph, currentLayer, visited, layers)
        \<in> measures [\<lambda>(els, graph, cur, visited, layers). card (el_id ` set els - visited),
                     \<lambda>(els, graph, cur, visited, layers). if cur = [] then 0 else 1]"
  proof (cases "nextLayer = []")
    case True
    with v ne show ?thesis by simp
  next
    case False
    then obtain a where a: "a \<in> set nextLayer" by (cases nextLayer) auto
    with n have "a \<in> el_id ` set els - visited" by blast
    moreover from a v have "a \<notin> el_id ` set els - visited'" by simp
    moreover from v have "el_id ` set els - visited' \<subseteq> el_id ` set els - visited" by blast
    ultimately have "el_id ` set els - visited' \<subset> el_id ` set els - visited" by blast
    then have "card (el_id ` set els - visited') < card (el_id ` set els - visited)"
      by (intro psubset_card_mono) simp_all
    then show ?thesis by simp
  qed
qed

declare buildLayers.simps [simp del]

definition layoutLayers :: "IElement list \<Rightarrow> IConnection list \<Rightarrow> int list list" where
  "layoutLayers els connections =
     (case buildLayers els (dependencyGraph els connections) (sourceLayers els)
             (set (sourceLayers els)) [sourceLayers els] of
        (layers, visited) \<Rightarrow>
          let remainingElements = filter (\<lambda>i. i \<notin> visited) (map el_id els)
          in if remainingElements \<noteq> [] then layers @ [remainingElements] else layers)"

text \<open>The ids that the breadth-first expansion has reached when it stops.\<close>

definition reachedIds :: "IElement list \<Rightarrow> IConnection list \<Rightarrow> int set" where
  "reachedIds els connections =
     snd (buildLayers els (dependencyGraph els connections) (sourceLayers els)
            (set (sourceLayers els)) [sourceLayers els])"

text \<open>Step 3: positions, written into the element objects.\<close>

definition assignPosition :: "ref list \<Rightarrow> nat \<Rightarrow> nat \<times> int \<Rightarrow> store \<Rightarrow> store" where
  "assignPosition arrangedElements layerIndex p h =
     (case p of (elementIndex, i) \<Rightarrow>
        (case find (\<lambda>r. el_id (h r) = i) arrangedElements of
           None \<Rightarrow> h
         | Some r \<Rightarrow> h(r := (h r)\<lparr>el_x := Some (100 + real layerIndex * 200),
                                   el_y := Some (100 + real elementIndex * 100)\<rparr>)))"

definition assignLayer :: "ref list \<Rightarrow> nat \<times> int list \<Rightarrow> store \<Rightarrow> store" where
  "assignLayer arrangedElements p h =
     (case p of (layerIndex, layerIds) \<Rightarrow>
        fold (assignPosition arrangedElements layerIndex) (enumerate 0 layerIds) h)"

definition assignLayers :: "ref list \<Rightarrow> int list list \<Rightarrow> store \<Rightarrow> store" where
  "assignLayers arrangedElements layers h =
     fold (assignLayer arrangedElements) (enumerate 0 layers) h"

text \<open>
  The spread \<open>[...elements]\<close> makes a new array of the same references; the function
  returns the store after its writes and the new array.
\<close>

definition arrangeElements :: "store \<Rightarrow> ref list \<Rightarrow> IConnection list \<Rightarrow> store \<times> ref list" where
  "arrangeElements h elements connections =
     (let arrangedElements = elements
      in if arrangedElements = [] then (h, arrangedElements)
         else (assignLayers arrangedElements
                 (layoutLayers (map h arrangedElements) connections) h,
               arrangedElements))"

section \<open>A small netlist\<close>

text \<open>
  A clock and a module input feed a flip-flop of type \<open>ty\<close> (D on port 0, clock on
  port 1, enable on port 2); its output drives a module output.
\<close>

definition ex_clk :: IElement where
  "ex_clk = \<lparr>el_id = 1, el_name = ''clk'', el_type = ''clk'', el_x = Some 100, el_y = Some 100,
             inputs = None, outputs = Some [\<lparr>wireName = ''c''\<rparr>]\<rparr>"

definition ex_in :: IElement where
  "ex_in = \<lparr>el_id = 2, el_name = ''a'', el_type = ''module_input'', el_x = Some 100,
            el_y = Some 200, inputs = None, outputs = Some [\<lparr>wireName = ''d''\<rparr>]\<rparr>"

definition ex_ff :: "string \<Rightarrow> IElement" where
  "ex_ff ty = \<lparr>el_id = 3, el_name = ''ff'', el_type = ty, el_x = Some 300, el_y = Some 100,
               inputs = Some [\<lparr>wireName = ''d''\<rparr>, \<lparr>wireName = ''c''\<rparr>, \<lparr>wireName = ''e''\<rparr>],
               outputs = Some [\<lparr>wireName = ''q''\<rparr>]\<rparr>"

definition ex_out :: IElement where
  "ex_out = \<lparr>el_id = 4, el_name = ''o'', el_type = ''module_output'', el_x = Some 500,
             el_y = Some 100, inputs = Some [\<lparr>wireName = ''q''\<rparr>], outputs = None\<rparr>"

definition ex_elements :: "string \<Rightarrow> IElement list" where
  "ex_elements ty = [ex_clk, ex_in, ex_ff ty, ex_out]"

definition ex_connections :: "IConnection list" where
  "ex_connections = [\<lparr>conn_name = ''c''\<rparr>, \<lparr>conn_name = ''d''\<rparr>, \<lparr>conn_name = ''q''\<rparr>]"

definition ex_signal :: "string \<Rightarrow> real \<Rightarrow> Signal" where
  "ex_signal w p = \<lparr>connectionName = w, position = p, points = [], totalLength = 0,
                    createdAt = 0, sourceName = [], destName = []\<rparr>"

text \<open>The flip-flop has a pending D pulse; \<open>en\<close> is its enable flag.\<close>

definition ex_state :: "string \<Rightarrow> bool \<Rightarrow> real \<Rightarrow> Signal list \<Rightarrow> SimState" where
  "ex_state ty en freq sigs =
     \<lparr>runningSimulation = True, clockFrequency = freq, activeSignals = sigs,
      flipFlopStates = [\<lparr>ff_id = 3, ff_name = ''ff'', hasD = True, hasEn = en,
                         outputValue = False, lastClockTime = 0, ff_type = ty\<rparr>],
      activeInputs = [2], activeOutputs = Map.empty, activeFlipFlopInputs = Map.empty,
      pendingTimeouts = []\<rparr>"

text \<open>
  A feedback loop in a store: the clock drives a flip-flop whose output goes through a
  gate back into its own D input. Flip-flop and gate have no position yet.
\<close>

definition ex_blank :: IElement where
  "ex_blank = \<lparr>el_id = 0, el_name = [], el_type = [], el_x = None, el_y = None,
               inputs = None, outputs = None\<rparr>"

definition ex_gate :: IElement where
  "ex_gate = \<lparr>el_id = 5, el_name = ''g'', el_type = ''and'', el_x = None, el_y = None,
              inputs = Some [\<lparr>wireName = ''q''\<rparr>], outputs = Some [\<lparr>wireName = ''fb''\<rparr>]\<rparr>"

definition ex_loop_ff :: IElement where
  "ex_loop_ff = \<lparr>el_id = 3, el_name = ''ff'', el_type = ''DFF_NE'', el_x = None, el_y = None,
              inputs = Some [\<lparr>wireName = ''fb''\<rparr>, \<lparr>wireName = ''c''\<rparr>], outputs = Some [\<lparr>wireName = ''q''\<rparr>]\<rparr>"

definition ex_store :: store where
  "ex_store = (\<lambda>_. ex_blank)(0 := ex_clk, 1 := ex_loop_ff, 2 := ex_gate)"

definition ex_loop_connections :: "IConnection list" where
  "ex_loop_connections = [\<lparr>conn_name = ''c''\<rparr>, \<lparr>conn_name = ''q''\<rparr>, \<lparr>conn_name = ''fb''\<rparr>]"

lemmas ex_defs = ex_clk_def ex_in_def ex_ff_def ex_out_def ex_elements_def ex_connections_def
  ex_signal_def ex_state_def

lemmas arrival_defs = handleSignalArrival_def flipFlopUpdater_def findPort_def readsWire_def
  drivesWire_def isFlipFlop_def isDInput_def isEnInput_def isClockInput_def
  shouldUpdateOutput_def

section \<open>Wire paths\<close>




section \<open>Input toggle\<close>

text \<open>
  C10. A click on a module input that was not a drag toggles its id in the active-input
  set: the id is removed when present and added when absent, no other id changes, and two
  clicks restore the set. (The array itself comes back reordered when the id was
  present: the id moves to the end.)
\<close>

theorem input_toggle_involution:
  assumes "el_type el = ''module_input''"
  shows "set (handleMouseUp (Some el) False xs)
           = (if el_id el \<in> set xs then set xs - {el_id el} else insert (el_id el) (set xs))
       \<and> set (handleMouseUp (Some el) False (handleMouseUp (Some el) False xs)) = set xs
       \<and> handleMouseUp (Some el) False (handleMouseUp (Some el) False xs)
           = (if el_id el \<in> set xs then filter (\<lambda>i. i \<noteq> el_id el) xs @ [el_id el] else xs)"
  using assms by (auto simp: handleMouseUp_def toggleActiveInput_def filter_id_conv)

theorem input_toggle_involution_witness:
  "el_type ex_in = ''module_input''
   \<and> set (handleMouseUp (Some ex_in) False [5, 2]) = {5}
   \<and> set (handleMouseUp (Some ex_in) False (handleMouseUp (Some ex_in) False [5, 2])) = {5, 2}"
  using input_toggle_involution [of ex_in "[5, 2]"] by (simp add: ex_in_def insert_commute)

section \<open>Advancement and arrival\<close>

lemma connectionName_newSignal: "connectionName (newSignal s d c now) = conn_name c"
  by (simp add: newSignal_def Let_def)

lemma position_newSignal: "position (newSignal s d c now) = 0"
  by (simp add: newSignal_def Let_def)

lemma newPosition_eq: "newPosition f s = position s + 0.01 * f"
  by (simp add: newPosition_def signalSpeed_def)



text \<open>Every way a signal enters the active set puts it at progress 0.\<close>

lemma emitOn_in_flight:
  "\<forall>s \<in> set sigs. position s < 1 \<Longrightarrow> \<forall>s \<in> set (emitOn els now conn sigs). position s < 1"
  by (auto simp: emitOn_def position_newSignal split: option.splits)

lemma fold_emitOn_in_flight:
  "\<forall>s \<in> set prev. position s < 1
   \<Longrightarrow> \<forall>s \<in> set (fold (emitOn els now) cs prev). position s < 1"
proof (induction cs arbitrary: prev)
  case Nil
  then show ?case by simp
next
  case (Cons c cs)
  from Cons.IH [OF emitOn_in_flight [OF Cons.prems]] show ?case by simp
qed

lemma emissionTick_in_flight:
  "\<forall>s \<in> set prev. position s < 1
   \<Longrightarrow> \<forall>s \<in> set (emissionTick els conns clk actIn now prev). position s < 1"
  unfolding emissionTick_def by (rule fold_emitOn_in_flight)

lemma deferredEmission_in_flight:
  "\<forall>s \<in> set sigs. position s < 1
   \<Longrightarrow> \<forall>s \<in> set (deferredEmission els conns d now sigs). position s < 1"
  by (auto simp: deferredEmission_def position_newSignal split: option.splits)



section \<open>Clock edges\<close>

lemma isFlipFlop_not_output: "isFlipFlop d \<Longrightarrow> el_type d \<noteq> ''module_output''"
  by (auto simp: isFlipFlop_def)

lemma clockArrival_dispatch:
  assumes "clockArrival els sig d"
  shows "handleSignalArrival els now sig st = flipFlopUpdater d False False True now st"
  using assms
  by (auto simp: clockArrival_def handleSignalArrival_def Let_def isFlipFlop_not_output
           split: option.splits)

lemma ex_clockArrival:
  "clockArrival (ex_elements ty) (ex_signal ''c'' p) (ex_ff ty) = (ty = ''DFF'' \<or> ty = ''DFF_NE'')"
  by (simp add: clockArrival_def ex_defs findPort_def readsWire_def isFlipFlop_def
       isDInput_def isEnInput_def isClockInput_def)

text \<open>
  C6. A clock arrival at least 50 ms after the last accepted edge stamps the edge, sets
  the output to the pending D value exactly when the flip-flop is a DFF_NE or a DFF with
  enable asserted (otherwise the output keeps its value), and clears the pending D in
  both cases; nothing else in the flip-flop states changes.
\<close>

theorem clock_edge_latch:
  assumes "clockArrival els sig d"
    and "findIndex (\<lambda>ff. ff_id ff = el_id d) (flipFlopStates st) = Some i"
    and "50 \<le> now - lastClockTime (flipFlopStates st ! i)"
  shows "flipFlopStates (handleSignalArrival els now sig st)
           = (flipFlopStates st)[i := (flipFlopStates st ! i)
                \<lparr>lastClockTime := now,
                 outputValue :=
                   (if el_type d = ''DFF_NE'' \<or> (el_type d = ''DFF'' \<and> hasEn (flipFlopStates st ! i))
                    then hasD (flipFlopStates st ! i) else outputValue (flipFlopStates st ! i)),
                 hasD := False\<rparr>]"
  using assms(2,3)
  by (simp add: clockArrival_dispatch [OF assms(1)] flipFlopUpdater_def Let_def
        shouldUpdateOutput_def)

text \<open>A DFF whose enable is off: the edge is accepted, the output stays, the D pulse is lost.\<close>

theorem clock_edge_latch_witness:
  "clockArrival (ex_elements ''DFF'') (ex_signal ''c'' 0.99) (ex_ff ''DFF'')
   \<and> findIndex (\<lambda>ff. ff_id ff = el_id (ex_ff ''DFF''))
        (flipFlopStates (ex_state ''DFF'' False 20 [])) = Some 0
   \<and> (50::real) \<le> 1000 - lastClockTime (flipFlopStates (ex_state ''DFF'' False 20 []) ! 0)
   \<and> map (\<lambda>ff. (hasD ff, outputValue ff, lastClockTime ff))
        (flipFlopStates (handleSignalArrival (ex_elements ''DFF'') 1000 (ex_signal ''c'' 0.99)
           (ex_state ''DFF'' False 20 []))) = [(False, False, 1000)]"
proof -
  have a: "clockArrival (ex_elements ''DFF'') (ex_signal ''c'' 0.99) (ex_ff ''DFF'')"
    by (simp add: ex_clockArrival)
  have b: "findIndex (\<lambda>ff. ff_id ff = el_id (ex_ff ''DFF''))
             (flipFlopStates (ex_state ''DFF'' False 20 [])) = Some 0"
    by (simp add: ex_defs)
  have c: "(50::real) \<le> 1000 - lastClockTime (flipFlopStates (ex_state ''DFF'' False 20 []) ! 0)"
    by (simp add: ex_defs)
  from clock_edge_latch [OF a b c] a b c show ?thesis
    by (simp add: ex_defs)
qed

text \<open>
  C7. A clock arrival less than 50 ms after the last accepted edge changes nothing: the
  flip-flop states, the pending deferred emissions and the rest of the state are as
  before.
\<close>

theorem clock_debounce_ignored:
  assumes "clockArrival els sig d"
    and "findIndex (\<lambda>ff. ff_id ff = el_id d) (flipFlopStates st) = Some i"
    and "now - lastClockTime (flipFlopStates st ! i) < 50"
  shows "handleSignalArrival els now sig st = st"
  using assms(2,3)
  by (simp add: clockArrival_dispatch [OF assms(1)] flipFlopUpdater_def Let_def)

theorem clock_debounce_ignored_witness:
  "clockArrival (ex_elements ''DFF_NE'') (ex_signal ''c'' 0.99) (ex_ff ''DFF_NE'')
   \<and> findIndex (\<lambda>ff. ff_id ff = el_id (ex_ff ''DFF_NE''))
        (flipFlopStates (ex_state ''DFF_NE'' True 20 [])) = Some 0
   \<and> 30 - lastClockTime (flipFlopStates (ex_state ''DFF_NE'' True 20 []) ! 0) < (50::real)
   \<and> handleSignalArrival (ex_elements ''DFF_NE'') 30 (ex_signal ''c'' 0.99)
        (ex_state ''DFF_NE'' True 20 []) = ex_state ''DFF_NE'' True 20 []"
proof -
  have a: "clockArrival (ex_elements ''DFF_NE'') (ex_signal ''c'' 0.99) (ex_ff ''DFF_NE'')"
    by (simp add: ex_clockArrival)
  have b: "findIndex (\<lambda>ff. ff_id ff = el_id (ex_ff ''DFF_NE''))
             (flipFlopStates (ex_state ''DFF_NE'' True 20 [])) = Some 0"
    by (simp add: ex_defs)
  have c: "30 - lastClockTime (flipFlopStates (ex_state ''DFF_NE'' True 20 []) ! 0) < (50::real)"
    by (simp add: ex_defs)
  from clock_debounce_ignored [OF a b c] a b c show ?thesis
    by simp
qed

section \<open>Reset\<close>

text \<open>
  C3, as the code has it. A reset empties the active outputs and the active inputs and
  puts every flip-flop at no pending D, enable asserted exactly for DFF_NE, output false
  and last clock time 0, whether the simulation runs or not. The signals in flight are
  discarded only when the simulation is stopped; while it runs they stay on their wires.
\<close>

theorem reset_effect:
  "activeOutputs (resetTriggeredEffect st) = Map.empty
   \<and> activeInputs (resetTriggeredEffect st) = []
   \<and> map (\<lambda>ff. (hasD ff, hasEn ff, outputValue ff, lastClockTime ff))
         (flipFlopStates (resetTriggeredEffect st))
       = map (\<lambda>ff. (False, ff_type ff = ''DFF_NE'', False, 0)) (flipFlopStates st)
   \<and> map (\<lambda>ff. (ff_id ff, ff_name ff, ff_type ff)) (flipFlopStates (resetTriggeredEffect st))
       = map (\<lambda>ff. (ff_id ff, ff_name ff, ff_type ff)) (flipFlopStates st)
   \<and> activeSignals (resetTriggeredEffect st)
       = (if runningSimulation st then activeSignals st else [])
   \<and> runningSimulation (resetTriggeredEffect st) = runningSimulation st"
  by (simp add: resetTriggeredEffect_def simulationEffect_def resetFlipFlop_def)

text \<open>A reset while the simulation runs with a signal on the clock wire: the signal stays.\<close>

theorem reset_keeps_signals_counterexample:
  "runningSimulation (ex_state ''DFF'' True 20 [ex_signal ''c'' 0.5])
   \<and> activeSignals (resetTriggeredEffect (ex_state ''DFF'' True 20 [ex_signal ''c'' 0.5])) \<noteq> []"
  by (simp add: resetTriggeredEffect_def simulationEffect_def ex_state_def)

section \<open>One signal per wire\<close>

text \<open>The emission tick never puts a second signal on a wire.\<close>

lemma emitOn_distinct:
  "distinct (map connectionName sigs) \<Longrightarrow> distinct (map connectionName (emitOn els now conn sigs))"
  by (auto simp: emitOn_def list_ex_iff connectionName_newSignal split: option.splits)

lemma fold_emitOn_distinct:
  "distinct (map connectionName prev)
   \<Longrightarrow> distinct (map connectionName (fold (emitOn els now) cs prev))"
  by (induction cs arbitrary: prev) (simp_all add: emitOn_distinct)

lemma emissionTick_distinct:
  "distinct (map connectionName prev)
   \<Longrightarrow> distinct (map connectionName (emissionTick els conns clk actIn now prev))"
  by (simp add: emissionTick_def fold_emitOn_distinct)

text \<open>
  C1. The deferred emission of a flip-flop does not look at the wire. At 100 Hz a DFF_NE
  latches a pending D at 1000 ms and, after another D pulse, at 1060 ms; the frequency is
  then lowered to 1 Hz. The first deferred emission fires at 1100 ms, six advancement
  ticks move its signal to 0.06, and the second deferred emission at 1160 ms puts a
  second signal on the same output wire.
\<close>

theorem deferred_emission_second_signal:
  "map (\<lambda>s. (connectionName s, position s))
     (activeSignals
        (fireTimeout (ex_elements ''DFF_NE'') ex_connections 1160
          (fold (advanceTick (ex_elements ''DFF_NE'')) [1110, 1120, 1130, 1140, 1150, 1160]
            (fireTimeout (ex_elements ''DFF_NE'') ex_connections 1100
              (handleClockFrequencyChange 1
                (handleSignalArrival (ex_elements ''DFF_NE'') 1060 (ex_signal ''c'' 0.99)
                  (handleSignalArrival (ex_elements ''DFF_NE'') 1050 (ex_signal ''d'' 0.99)
                    (handleSignalArrival (ex_elements ''DFF_NE'') 1000 (ex_signal ''c'' 0.99)
                      (ex_state ''DFF_NE'' True 100 []))))))))) = [(''q'', 0.06), (''q'', 0)]"
  by (simp add: ex_defs arrival_defs fireTimeout_def deferredEmission_def connectionName_newSignal
       position_newSignal handleClockFrequencyChange_def simulationEffect_def advanceTick_def
       arrivingSignals_def remainingSignals_def newPosition_eq)

section \<open>Stop\<close>

text \<open>
  C2. Stopping empties the active signals, but a deferred emission scheduled before the
  stop still fires: a DFF_NE latches at 1000 ms, the simulation is stopped, and at
  1100 ms the callback puts a signal on the output wire of the stopped simulation.
\<close>

theorem deferred_emission_after_stop:
  "activeSignals (setRunningSimulation False
       (handleSignalArrival (ex_elements ''DFF_NE'') 1000 (ex_signal ''c'' 0.99)
          (ex_state ''DFF_NE'' True 20 [ex_signal ''d'' 0.5]))) = []
   \<and> \<not> runningSimulation (fireTimeout (ex_elements ''DFF_NE'') ex_connections 1100
      (setRunningSimulation False
       (handleSignalArrival (ex_elements ''DFF_NE'') 1000 (ex_signal ''c'' 0.99)
          (ex_state ''DFF_NE'' True 20 [ex_signal ''d'' 0.5]))))
   \<and> map connectionName (activeSignals (fireTimeout (ex_elements ''DFF_NE'') ex_connections 1100
      (setRunningSimulation False
       (handleSignalArrival (ex_elements ''DFF_NE'') 1000 (ex_signal ''c'' 0.99)
          (ex_state ''DFF_NE'' True 20 [ex_signal ''d'' 0.5]))))) = [''q'']"
  by (simp add: ex_defs arrival_defs fireTimeout_def deferredEmission_def connectionName_newSignal
       setRunningSimulation_def simulationEffect_def outputTimeoutEffect_def)

section \<open>Layers\<close>

lemma find_Some_set: "find P xs = Some x \<Longrightarrow> x \<in> set xs \<and> P x"
  by (induction xs) (auto split: if_splits)

lemma visitDest_passInv: "passInv els visited acc \<Longrightarrow> passInv els visited (visitDest els d acc)"
  by (cases acc)
     (auto simp: passInv_def visitDest_def split: option.splits dest!: find_Some_set)

lemma fold_visitDest_passInv:
  "passInv els visited acc \<Longrightarrow> passInv els visited (fold (visitDest els) ds acc)"
  by (induction ds arbitrary: acc) (simp_all add: visitDest_passInv)

lemma expandLayer_passInv: "passInv els visited (expandLayer els graph cur visited)"
proof -
  have "passInv els visited (fold (\<lambda>srcId. fold (visitDest els) (graph srcId)) cs acc)"
    if "passInv els visited acc" for cs acc
    using that by (induction cs arbitrary: acc) (simp_all add: fold_visitDest_passInv)
  then show ?thesis
    unfolding expandLayer_def by (simp add: passInv_def)
qed

text \<open>The layers built so far list the visited ids, each once.\<close>

definition layersInv :: "IElement list \<Rightarrow> int list list \<times> int set \<Rightarrow> bool" where
  "layersInv els p =
     (set (concat (fst p)) = snd p \<and> distinct (concat (fst p)) \<and> snd p \<subseteq> el_id ` set els)"

lemma buildLayers_layersInv:
  "layersInv els (layers, visited) \<Longrightarrow> layersInv els (buildLayers els graph cur visited layers)"
proof (induction els graph cur visited layers rule: buildLayers.induct)
  case (1 els graph currentLayer visited layers)
  show ?case
  proof (cases "currentLayer = []")
    case True
    with "1.prems" show ?thesis by (simp add: buildLayers.simps)
  next
    case False
    obtain nextLayer visited' where e: "expandLayer els graph currentLayer visited = (nextLayer, visited')"
      by (cases "expandLayer els graph currentLayer visited")
    from expandLayer_passInv [of els visited graph currentLayer] e
    have p: "visited' = visited \<union> set nextLayer" "set nextLayer \<subseteq> el_id ` set els - visited"
      "distinct nextLayer"
      by (simp_all add: passInv_def)
    from "1.prems" p
    have "layersInv els (if nextLayer \<noteq> [] then layers @ [nextLayer] else layers, visited')"
      by (auto simp: layersInv_def)
    from "1.IH" [OF False e [symmetric] this] False e show ?thesis
      by (simp add: buildLayers.simps [of els graph currentLayer])
  qed
qed

lemma sourceLayers_subset: "set (sourceLayers els) \<subseteq> el_id ` set els"
  by (auto simp: sourceLayers_def)

lemma sourceLayers_distinct: "distinct (map el_id els) \<Longrightarrow> distinct (sourceLayers els)"
  by (simp add: sourceLayers_def distinct_map_filter)

lemma layoutLayers_cover:
  assumes "distinct (map el_id els)"
  shows "distinct (concat (layoutLayers els conns))"
    and "set (concat (layoutLayers els conns)) = el_id ` set els"
proof -
  obtain layers visited where
    b: "buildLayers els (dependencyGraph els conns) (sourceLayers els)
          (set (sourceLayers els)) [sourceLayers els] = (layers, visited)"
    by (cases "buildLayers els (dependencyGraph els conns) (sourceLayers els)
          (set (sourceLayers els)) [sourceLayers els]")
  have "layersInv els ([sourceLayers els], set (sourceLayers els))"
    using assms by (simp add: layersInv_def sourceLayers_subset sourceLayers_distinct)
  from buildLayers_layersInv [OF this, of "dependencyGraph els conns" "sourceLayers els"] b
  have i: "set (concat layers) = visited" "distinct (concat layers)" "visited \<subseteq> el_id ` set els"
    by (simp_all add: layersInv_def)
  have l: "layoutLayers els conns =
     (if filter (\<lambda>i. i \<notin> visited) (map el_id els) \<noteq> []
      then layers @ [filter (\<lambda>i. i \<notin> visited) (map el_id els)] else layers)"
    by (simp add: layoutLayers_def b Let_def)
  from i assms show "distinct (concat (layoutLayers els conns))"
    by (auto simp: l)
  from i show "set (concat (layoutLayers els conns)) = el_id ` set els"
    by (auto simp: l filter_empty_conv)
qed

text \<open>The unreached ids form the last layer.\<close>

lemma layoutLayers_unreached:
  assumes "e \<in> set els" and "el_id e \<notin> reachedIds els conns"
  shows "layoutLayers els conns \<noteq> []"
    and "el_id e \<in> set (last (layoutLayers els conns))"
proof -
  obtain layers visited where
    b: "buildLayers els (dependencyGraph els conns) (sourceLayers els)
          (set (sourceLayers els)) [sourceLayers els] = (layers, visited)"
    by (cases "buildLayers els (dependencyGraph els conns) (sourceLayers els)
          (set (sourceLayers els)) [sourceLayers els]")
  from assms b have "el_id e \<in> set (filter (\<lambda>i. i \<notin> visited) (map el_id els))"
    by (simp add: reachedIds_def)
  then have m: "el_id e \<in> set (filter (\<lambda>i. i \<notin> visited) (map el_id els))"
    and n: "filter (\<lambda>i. i \<notin> visited) (map el_id els) \<noteq> []"
    by (simp, force)
  from n have l: "layoutLayers els conns = layers @ [filter (\<lambda>i. i \<notin> visited) (map el_id els)]"
    by (simp add: layoutLayers_def b Let_def)
  show "layoutLayers els conns \<noteq> []" by (simp add: l)
  from m show "el_id e \<in> set (last (layoutLayers els conns))" by (simp add: l)
qed


section \<open>Positions\<close>

lemma find_distinct_key:
  "distinct (map f xs) \<Longrightarrow> x \<in> set xs \<Longrightarrow> find (\<lambda>y. f y = f x) xs = Some x"
  by (induction xs) (auto simp: image_iff)

lemma assignPosition_id: "el_id (assignPosition arr L p h r) = el_id (h r)"
  by (auto simp: assignPosition_def split: prod.splits option.splits)

lemma assignPosition_other:
  "el_id (h r) \<noteq> snd p \<Longrightarrow> assignPosition arr L p h r = h r"
  by (auto simp: assignPosition_def split: prod.splits option.splits dest!: find_Some_set)

lemma assignPosition_hit:
  assumes "distinct (map (\<lambda>r. el_id (h r)) arr)" and "r \<in> set arr"
  shows "assignPosition arr L (i, el_id (h r)) h r
           = (h r)\<lparr>el_x := Some (100 + real L * 200), el_y := Some (100 + real i * 100)\<rparr>"
  using find_distinct_key [OF assms] by (simp add: assignPosition_def)

lemma fold_assignPosition_id: "el_id (fold (assignPosition arr L) ps h r) = el_id (h r)"
  by (induction ps arbitrary: h) (simp_all add: assignPosition_id)

lemma fold_assignPosition_other:
  "el_id (h r) \<notin> snd ` set ps \<Longrightarrow> fold (assignPosition arr L) ps h r = h r"
  by (induction ps arbitrary: h) (simp_all add: assignPosition_id assignPosition_other)

lemma assignLayer_id: "el_id (assignLayer arr p h r) = el_id (h r)"
  by (cases p) (simp add: assignLayer_def fold_assignPosition_id)

lemma assignLayer_other:
  assumes "el_id (h r) \<notin> set (snd p)"
  shows "assignLayer arr p h r = h r"
proof (cases p)
  case (Pair L ids)
  with assms have "el_id (h r) \<notin> snd ` set (enumerate 0 ids)"
    by (simp flip: set_map)
  with Pair show ?thesis
    by (simp add: assignLayer_def fold_assignPosition_other)
qed

lemma fold_assignLayer_other:
  "el_id (h r) \<notin> set (concat (map snd ps)) \<Longrightarrow> fold (assignLayer arr) ps h r = h r"
  by (induction ps arbitrary: h) (simp_all add: assignLayer_id assignLayer_other)

lemma fold_assignPosition_hit:
  assumes "distinct (map snd ps)" and "(i, el_id (h r)) \<in> set ps"
    and "distinct (map (\<lambda>r. el_id (h r)) arr)" and "r \<in> set arr"
  shows "fold (assignPosition arr L) ps h r
           = (h r)\<lparr>el_x := Some (100 + real L * 200), el_y := Some (100 + real i * 100)\<rparr>"
  using assms
proof (induction ps arbitrary: h)
  case Nil
  then show ?case by simp
next
  case (Cons p ps)
  show ?case
  proof (cases "p = (i, el_id (h r))")
    case True
    with Cons.prems(1) have "el_id (h r) \<notin> snd ` set ps" by simp
    then have "el_id (assignPosition arr L p h r) \<notin> snd ` set ps"
      by (simp add: assignPosition_id)
    then have "fold (assignPosition arr L) ps (assignPosition arr L p h) r
                 = assignPosition arr L p h r"
      by (rule fold_assignPosition_other)
    with True assignPosition_hit [OF Cons.prems(3,4)] show ?thesis by simp
  next
    case False
    with Cons.prems(2) have m: "(i, el_id (h r)) \<in> set ps" by simp
    with Cons.prems(1) have "el_id (h r) \<noteq> snd p" by (force simp: image_iff)
    then have u: "assignPosition arr L p h r = h r" by (rule assignPosition_other)
    have d: "distinct (map (\<lambda>r. el_id (assignPosition arr L p h r)) arr)"
      using Cons.prems(3) by (simp add: assignPosition_id)
    from Cons.prems(1) have dp: "distinct (map snd ps)" by simp
    from m u have m': "(i, el_id (assignPosition arr L p h r)) \<in> set ps" by simp
    from Cons.IH [OF dp m' d Cons.prems(4)] u show ?thesis by simp
  qed
qed

lemma assignLayer_hit:
  assumes "distinct ids" and "i < length ids" and "ids ! i = el_id (h r)"
    and "distinct (map (\<lambda>r. el_id (h r)) arr)" and "r \<in> set arr"
  shows "assignLayer arr (L, ids) h r
           = (h r)\<lparr>el_x := Some (100 + real L * 200), el_y := Some (100 + real i * 100)\<rparr>"
proof -
  from assms(1) have "distinct (map snd (enumerate 0 ids))" by simp
  moreover from assms(2,3) have "(i, el_id (h r)) \<in> set (enumerate 0 ids)"
    by (simp add: in_set_enumerate_eq)
  ultimately show ?thesis
    unfolding assignLayer_def prod.case
    by (rule fold_assignPosition_hit) (fact assms(4), fact assms(5))
qed

lemma fold_assignLayer_hit:
  assumes "distinct (concat (map snd ps))" and "(L, ids) \<in> set ps"
    and "i < length ids" and "ids ! i = el_id (h r)"
    and "distinct (map (\<lambda>r. el_id (h r)) arr)" and "r \<in> set arr"
  shows "fold (assignLayer arr) ps h r
           = (h r)\<lparr>el_x := Some (100 + real L * 200), el_y := Some (100 + real i * 100)\<rparr>"
  using assms
proof (induction ps arbitrary: h)
  case Nil
  then show ?case by simp
next
  case (Cons p ps)
  from Cons.prems(3,4) have mem: "el_id (h r) \<in> set ids" by (metis nth_mem)
  show ?case
  proof (cases "p = (L, ids)")
    case True
    with Cons.prems(1) have di: "distinct ids" by simp
    from True Cons.prems(1) mem have "el_id (h r) \<notin> set (concat (map snd ps))" by auto
    then have "el_id (assignLayer arr p h r) \<notin> set (concat (map snd ps))"
      by (simp add: assignLayer_id)
    then have "fold (assignLayer arr) ps (assignLayer arr p h) r = assignLayer arr p h r"
      by (rule fold_assignLayer_other)
    with True assignLayer_hit [OF di Cons.prems(3,4,5,6)] show ?thesis by simp
  next
    case False
    with Cons.prems(2) have m: "(L, ids) \<in> set ps" by simp
    with mem have "el_id (h r) \<in> set (concat (map snd ps))" by force
    with Cons.prems(1) have "el_id (h r) \<notin> set (snd p)" by auto
    then have u: "assignLayer arr p h r = h r" by (rule assignLayer_other)
    have d: "distinct (map (\<lambda>r. el_id (assignLayer arr p h r)) arr)"
      using Cons.prems(5) by (simp add: assignLayer_id)
    from Cons.prems(1) have dp: "distinct (concat (map snd ps))" by simp
    from Cons.prems(4) u have e: "ids ! i = el_id (assignLayer arr p h r)" by simp
    from Cons.IH [OF dp m Cons.prems(3) e d Cons.prems(6)] u show ?thesis by simp
  qed
qed

lemma assignLayers_hit:
  assumes "distinct (concat layers)" and "L < length layers" and "i < length (layers ! L)"
    and "layers ! L ! i = el_id (h r)"
    and "distinct (map (\<lambda>r. el_id (h r)) arr)" and "r \<in> set arr"
  shows "assignLayers arr layers h r
           = (h r)\<lparr>el_x := Some (100 + real L * 200), el_y := Some (100 + real i * 100)\<rparr>"
proof -
  from assms(1) have "distinct (concat (map snd (enumerate 0 layers)))" by simp
  moreover from assms(2) have "(L, layers ! L) \<in> set (enumerate 0 layers)"
    by (simp add: in_set_enumerate_eq)
  ultimately show ?thesis
    unfolding assignLayers_def
    by (rule fold_assignLayer_hit) (fact assms(3), fact assms(4), fact assms(5), fact assms(6))
qed

lemma in_concat_nth:
  assumes "a \<in> set (concat ls)"
  shows "\<exists>L i. L < length ls \<and> i < length (ls ! L) \<and> ls ! L ! i = a"
proof -
  from assms obtain l where "l \<in> set ls" "a \<in> set l" by auto
  then show ?thesis by (metis in_set_conv_nth)
qed


section \<open>The feedback loop, laid out\<close>

lemma ex_els: "map ex_store [0, 1, 2] = [ex_clk, ex_loop_ff, ex_gate]"
  by (simp add: ex_store_def)

lemma ex_src: "sourceLayers [ex_clk, ex_loop_ff, ex_gate] = [1]"
  by (simp add: sourceLayers_def ex_clk_def ex_loop_ff_def ex_gate_def)

lemma ex_graph: "dependencyGraph [ex_clk, ex_loop_ff, ex_gate] ex_loop_connections
   = (\<lambda>_. [])(1 := [3], 3 := [5], 5 := [3])"
  by (simp add: dependencyGraph_def addConnection_def drivesWire_def readsWire_def
       ex_clk_def ex_loop_ff_def ex_gate_def ex_loop_connections_def)

lemma ex_expand: "expandLayer [ex_clk, ex_loop_ff, ex_gate] ((\<lambda>_. [])(1 := [3], 3 := [5], 5 := [3])) [1] {1}
   = ([], {1})"
  by (simp add: expandLayer_def visitDest_def inputElements_def drivesWire_def List.map_filter_def
       ex_clk_def ex_loop_ff_def ex_gate_def)

lemma ex_build: "buildLayers [ex_clk, ex_loop_ff, ex_gate] ((\<lambda>_. [])(1 := [3], 3 := [5], 5 := [3])) [1] {1} [[1]]
   = ([[1]], {1})"
  by (simp add: buildLayers.simps [of _ _ "[1]"] buildLayers.simps [of _ _ "[]"] ex_expand)

lemma ex_layers: "layoutLayers [ex_clk, ex_loop_ff, ex_gate] ex_loop_connections = [[1], [3, 5]]"
  by (simp add: layoutLayers_def ex_src ex_graph ex_build)
     (simp add: ex_clk_def ex_loop_ff_def ex_gate_def)

lemma ex_arrange: "arrangeElements ex_store [0, 1, 2] ex_loop_connections
   = (ex_store(0 := ex_clk\<lparr>el_x := Some 100, el_y := Some 100\<rparr>,
              1 := ex_loop_ff\<lparr>el_x := Some 300, el_y := Some 100\<rparr>,
              2 := ex_gate\<lparr>el_x := Some 300, el_y := Some 200\<rparr>), [0, 1, 2])"
  unfolding arrangeElements_def Let_def ex_els ex_layers
  by (simp add: assignLayers_def assignLayer_def assignPosition_def ex_store_def)
     (simp add: ex_clk_def ex_loop_ff_def ex_gate_def)


lemma ex_reached: "reachedIds [ex_clk, ex_loop_ff, ex_gate] ex_loop_connections = {1}"
  by (simp add: reachedIds_def ex_src ex_graph ex_build)

text \<open>
  C8. For a netlist with unique element ids, cyclic or not, the planner returns the
  array it was given and every element of it has been given the position
  (100 + 200 L, 100 + 100 i) of the place its id has in the layers, layer L and index i
  in the layer; nothing else of the element changes. An element that the breadth-first
  expansion has not reached is in the last layer. The layer construction is a total
  function: its loop terminates because every pass that continues adds a new element id
  to the visited set.
\<close>

theorem layout_places_every_element:
  assumes "distinct (map (\<lambda>r. el_id (h r)) refs)"
  shows "snd (arrangeElements h refs conns) = refs
     \<and> (\<forall>r \<in> set refs. \<exists>L i.
           L < length (layoutLayers (map h refs) conns)
           \<and> i < length (layoutLayers (map h refs) conns ! L)
           \<and> layoutLayers (map h refs) conns ! L ! i = el_id (h r)
           \<and> fst (arrangeElements h refs conns) r
               = (h r)\<lparr>el_x := Some (100 + real L * 200), el_y := Some (100 + real i * 100)\<rparr>)
     \<and> (\<forall>r \<in> set refs. el_id (h r) \<notin> reachedIds (map h refs) conns \<longrightarrow>
           el_id (h r) \<in> set (last (layoutLayers (map h refs) conns))
           \<and> el_x (fst (arrangeElements h refs conns) r)
               = Some (100 + real (length (layoutLayers (map h refs) conns) - 1) * 200))"
proof -
  let ?ls = "layoutLayers (map h refs) conns"
  from assms have d: "distinct (map el_id (map h refs))" by (simp add: comp_def)
  note cover = layoutLayers_cover [OF d, of conns]
  have arr: "fst (arrangeElements h refs conns) r = assignLayers refs ?ls h r"
    if "r \<in> set refs" for r
    using that by (auto simp: arrangeElements_def)
  have one: "snd (arrangeElements h refs conns) = refs"
    by (simp add: arrangeElements_def)
  have two: "\<exists>L i. L < length ?ls \<and> i < length (?ls ! L) \<and> ?ls ! L ! i = el_id (h r)
           \<and> fst (arrangeElements h refs conns) r
               = (h r)\<lparr>el_x := Some (100 + real L * 200), el_y := Some (100 + real i * 100)\<rparr>"
    if r: "r \<in> set refs" for r
  proof -
    from r cover(2) have "el_id (h r) \<in> set (concat ?ls)" by simp
    from in_concat_nth [OF this] obtain L i
      where p: "L < length ?ls" "i < length (?ls ! L)" "?ls ! L ! i = el_id (h r)"
      by blast
    from assignLayers_hit [OF cover(1) p assms r] arr [OF r] p show ?thesis by metis
  qed
  have three: "el_id (h r) \<in> set (last ?ls)
           \<and> el_x (fst (arrangeElements h refs conns) r) = Some (100 + real (length ?ls - 1) * 200)"
    if r: "r \<in> set refs" and u: "el_id (h r) \<notin> reachedIds (map h refs) conns" for r
  proof -
    from r have "h r \<in> set (map h refs)" by simp
    note un = layoutLayers_unreached [OF this u]
    from un(2) obtain i where i: "i < length (last ?ls)" "last ?ls ! i = el_id (h r)"
      by (auto simp: in_set_conv_nth)
    from un(1) have l: "length ?ls - 1 < length ?ls" "last ?ls = ?ls ! (length ?ls - 1)"
      by (simp_all add: last_conv_nth)
    from i l have p: "i < length (?ls ! (length ?ls - 1))" "?ls ! (length ?ls - 1) ! i = el_id (h r)"
      by simp_all
    from assignLayers_hit [OF cover(1) l(1) p assms r] arr [OF r] un(2) show ?thesis by simp
  qed
  from one two three show ?thesis by blast
qed

theorem layout_places_every_element_witness:
  "distinct (map (\<lambda>r. el_id (ex_store r)) [0, 1, 2])
   \<and> 2 \<in> set [0, 1, 2 :: nat]
   \<and> el_id (ex_store 2) \<notin> reachedIds (map ex_store [0, 1, 2]) ex_loop_connections
   \<and> el_id (ex_store 2) \<in> set (last (layoutLayers (map ex_store [0, 1, 2]) ex_loop_connections))
   \<and> el_x (fst (arrangeElements ex_store [0, 1, 2] ex_loop_connections) 2) = Some 300"
proof -
  have d: "distinct (map (\<lambda>r. el_id (ex_store r)) [0, 1, 2])"
    by (simp add: ex_store_def ex_clk_def ex_loop_ff_def ex_gate_def)
  have m: "2 \<in> set [0, 1, 2 :: nat]" by simp
  have u: "el_id (ex_store 2) \<notin> reachedIds (map ex_store [0, 1, 2]) ex_loop_connections"
    unfolding ex_els ex_reached by (simp add: ex_store_def ex_gate_def)
  have n: "length (layoutLayers (map ex_store [0, 1, 2]) ex_loop_connections) = 2"
    unfolding ex_els ex_layers by simp
  from layout_places_every_element [OF d, of ex_loop_connections] m u
  have "el_id (ex_store 2) \<in> set (last (layoutLayers (map ex_store [0, 1, 2]) ex_loop_connections))
      \<and> el_x (fst (arrangeElements ex_store [0, 1, 2] ex_loop_connections) 2)
          = Some (100 + real (length (layoutLayers (map ex_store [0, 1, 2]) ex_loop_connections) - 1) * 200)"
    by blast
  with d m u show ?thesis unfolding n by simp
qed

text \<open>
  C4. The planner writes the positions into the element objects it was given: after the
  call the flip-flop of the caller's list, which had no position, has one.
\<close>

theorem arrange_overwrites_input_elements:
  "el_x (ex_store 1) = None \<and> el_y (ex_store 1) = None
   \<and> snd (arrangeElements ex_store [0, 1, 2] ex_loop_connections) = [0, 1, 2]
   \<and> el_x (fst (arrangeElements ex_store [0, 1, 2] ex_loop_connections) 1) = Some 300
   \<and> el_y (fst (arrangeElements ex_store [0, 1, 2] ex_loop_connections) 1) = Some 100"
  unfolding ex_arrange by (simp add: ex_store_def ex_loop_ff_def)


end
